theory Spec2Isabelle
  imports Main "HOL-Library.Word"
begin

section \<open>bfbin2text: Byfl binary data rendered as delimited text\<close>

text \<open>
  A shallow embedding of \<^verbatim>\<open>tools/postproc/bfbin2text.cpp\<close>. A C++ \<^verbatim>\<open>char\<close> is a
  \<^typ>\<open>char\<close> (eight bits), a \<^verbatim>\<open>std::string\<close> a \<^typ>\<open>string\<close>, \<^verbatim>\<open>size_t\<close> and
  \<^verbatim>\<open>uint64_t\<close> are 64-bit words and \<^verbatim>\<open>uint8_t\<close> is an 8-bit word. The output stream
  is the string of the characters written to it so far, kept in the state.
\<close>

subsection \<open>Characters the program names\<close>

abbreviation backslash :: char where "backslash \<equiv> CHR 0x5C"
abbreviation apostrophe :: char where "apostrophe \<equiv> CHR 0x27"
abbreviation dquote :: char where "dquote \<equiv> CHR 0x22"
abbreviation tab :: char where "tab \<equiv> CHR 0x09"
abbreviation newline :: char where "newline \<equiv> CHR 0x0A"
abbreviation creturn :: char where "creturn \<equiv> CHR 0x0D"

subsection \<open>Fatal errors\<close>

text \<open>
  \<^verbatim>\<open>cerr << ... << die\<close> prints a message, flushes and calls \<^verbatim>\<open>exit(1)\<close>: the function
  that does so never returns. In the model it returns \<open>Inl\<close> of the error; the error of
  \<^verbatim>\<open>expand_escapes\<close> carries what the message reports, the offending character and the
  whole input.
\<close>

datatype fatal = InvalidEscapeSequence char string

subsection \<open>\<^verbatim>\<open>LocalState::expand_escapes\<close>\<close>

text \<open>
  The \<^verbatim>\<open>for\<close> loop over the characters of \<^verbatim>\<open>in_str\<close>, with its two loop variables
  \<^verbatim>\<open>out_str\<close> and \<^verbatim>\<open>escape_next\<close>. The first argument is the whole input (for the
  message), the second what is left to read.
\<close>

fun expand_loop :: "string \<Rightarrow> string \<Rightarrow> string \<Rightarrow> bool \<Rightarrow> fatal + string" where
  "expand_loop in_str [] out_str escape_next = Inr out_str"
| "expand_loop in_str (c # rest) out_str escape_next =
     (if escape_next then
        (if c = backslash \<or> c = apostrophe \<or> c = dquote
           then expand_loop in_str rest (out_str @ [c]) False
         else if c = CHR ''t'' then expand_loop in_str rest (out_str @ [tab]) False
         else if c = CHR ''n'' then expand_loop in_str rest (out_str @ [newline]) False
         else if c = CHR ''r'' then expand_loop in_str rest (out_str @ [creturn]) False
         else Inl (InvalidEscapeSequence c in_str))
      else if c = backslash then expand_loop in_str rest out_str True
      else expand_loop in_str rest (out_str @ [c]) False)"

definition expand_escapes :: "string \<Rightarrow> fatal + string" where
  "expand_escapes in_str = expand_loop in_str in_str [] False"

subsection \<open>\<^verbatim>\<open>quote_for_csv\<close>\<close>

fun quote_loop :: "string \<Rightarrow> string \<Rightarrow> string" where
  "quote_loop [] out_str = out_str"
| "quote_loop (c # rest) out_str =
     quote_loop rest ((if c = dquote then out_str @ [dquote] else out_str) @ [c])"

definition quote_for_csv :: "string \<Rightarrow> string" where
  "quote_for_csv in_str =
     (let out0 = (if length in_str > 0 \<and> in_str ! 0 = CHR ''-'' then [CHR ''=''] else []);
          out1 = out0 @ [dquote];
          out2 = quote_loop in_str out1
      in out2 @ [dquote])"

subsection \<open>Writing a \<^verbatim>\<open>uint64_t\<close> to the stream\<close>

text \<open>
  \<^verbatim>\<open>*lstate->outfile << value\<close> for a \<^verbatim>\<open>uint64_t\<close> is the standard library's
  formatted output; the program never changes the stream's flags, so the number is written
  in base ten, without sign, padding or grouping.
\<close>

definition digit_char :: "nat \<Rightarrow> char" where
  "digit_char d = ''0123456789'' ! d"

function decimal :: "nat \<Rightarrow> string" where
  "decimal n = (if n < 10 then [digit_char n] else decimal (n div 10) @ [digit_char (n mod 10)])"
  by pat_completeness auto
termination
  by (relation "measure id") auto

declare decimal.simps [simp del]

definition show_uint64 :: "64 word \<Rightarrow> string" where
  "show_uint64 v = decimal (unat v)"

subsection \<open>The parsing state\<close>

text \<open>
  The fields of \<^verbatim>\<open>class LocalState\<close>, with \<open>outfile\<close> the text written to the output
  stream so far.
\<close>

record LocalState =
  infilename :: string
  outfilename :: string
  outfile :: string
  tablenum :: "64 word"
  colsep :: string
  colnum :: "64 word"
  included_tables :: "string set"
  excluded_tables :: "string set"
  suppress_table :: bool
  only_names :: bool

subsection \<open>The callbacks\<close>

definition begin_any_table :: "LocalState \<Rightarrow> string \<Rightarrow> LocalState" where
  "begin_any_table lstate name =
     (let s1 = lstate\<lparr>suppress_table :=
                  (included_tables lstate \<noteq> {} \<and> name \<notin> included_tables lstate)
                  \<or> name \<in> excluded_tables lstate\<rparr>
      in if suppress_table s1 then s1
         else
           let s2 = (if only_names s1 then s1\<lparr>suppress_table := True\<rparr>
                     else
                       let old = tablenum s1;
                           s' = s1\<lparr>tablenum := old + 1\<rparr>
                       in if old > 0 then s'\<lparr>outfile := outfile s' @ [newline]\<rparr> else s')
           in s2\<lparr>outfile := outfile s2 @ quote_for_csv name @ [newline]\<rparr>)"

definition begin_row :: "LocalState \<Rightarrow> LocalState" where
  "begin_row lstate =
     (if suppress_table lstate then lstate else lstate\<lparr>colnum := 0\<rparr>)"

definition any_column_header :: "LocalState \<Rightarrow> string \<Rightarrow> LocalState" where
  "any_column_header lstate colname =
     (if suppress_table lstate then lstate
      else
        let s1 = (if colnum lstate > 0 then lstate\<lparr>outfile := outfile lstate @ colsep lstate\<rparr>
                  else lstate);
            s2 = s1\<lparr>outfile := outfile s1 @ quote_for_csv colname\<rparr>
        in s2\<lparr>colnum := colnum s2 + 1\<rparr>)"

definition end_row :: "LocalState \<Rightarrow> LocalState" where
  "end_row lstate =
     (if suppress_table lstate then lstate
      else lstate\<lparr>outfile := outfile lstate @ [newline]\<rparr>)"

definition write_uint64_value :: "LocalState \<Rightarrow> 64 word \<Rightarrow> LocalState" where
  "write_uint64_value lstate v =
     (if suppress_table lstate then lstate
      else
        let s1 = (if colnum lstate > 0 then lstate\<lparr>outfile := outfile lstate @ colsep lstate\<rparr>
                  else lstate);
            s2 = s1\<lparr>outfile := outfile s1 @ show_uint64 v\<rparr>
        in s2\<lparr>colnum := colnum s2 + 1\<rparr>)"

definition write_string_value :: "LocalState \<Rightarrow> string \<Rightarrow> LocalState" where
  "write_string_value lstate v =
     (if suppress_table lstate then lstate
      else
        let s1 = (if colnum lstate > 0 then lstate\<lparr>outfile := outfile lstate @ colsep lstate\<rparr>
                  else lstate);
            s2 = s1\<lparr>outfile := outfile s1 @ quote_for_csv v\<rparr>
        in s2\<lparr>colnum := colnum s2 + 1\<rparr>)"

definition write_bool_value :: "LocalState \<Rightarrow> 8 word \<Rightarrow> LocalState" where
  "write_bool_value lstate v =
     (if suppress_table lstate then lstate
      else
        let s1 = (if colnum lstate > 0 then lstate\<lparr>outfile := outfile lstate @ colsep lstate\<rparr>
                  else lstate);
            s2 = s1\<lparr>outfile := outfile s1 @ (if v = 0 then ''FALSE'' else ''TRUE'')\<rparr>
        in s2\<lparr>colnum := colnum s2 + 1\<rparr>)"

subsection \<open>The decoder's calls\<close>

text \<open>
  \<^verbatim>\<open>main\<close> registers one callback per kind of event and hands them to
  \<^verbatim>\<open>bf_process_byfl_file\<close>, which reads the file and calls them in stream order. The
  decoder is not part of this file: the calls it makes are a parameter, a list of events,
  one constructor per registered callback (the error callback apart, which ends the
  process and with it the list). \<open>dispatch\<close> is the table of \<^verbatim>\<open>main\<close>.
\<close>

datatype event =
    TableBeginBasic string
  | TableBeginKeyval string
  | ColumnBegin
  | ColumnUInt64 string
  | ColumnString string
  | ColumnBool string
  | ColumnEnd
  | RowBegin
  | DataUInt64 "64 word"
  | DataString string
  | DataBool "8 word"
  | RowEnd

fun dispatch :: "LocalState \<Rightarrow> event \<Rightarrow> LocalState" where
  "dispatch s (TableBeginBasic name) = begin_any_table s name"
| "dispatch s (TableBeginKeyval name) = begin_any_table s name"
| "dispatch s ColumnBegin = begin_row s"
| "dispatch s (ColumnUInt64 name) = any_column_header s name"
| "dispatch s (ColumnString name) = any_column_header s name"
| "dispatch s (ColumnBool name) = any_column_header s name"
| "dispatch s ColumnEnd = end_row s"
| "dispatch s RowBegin = begin_row s"
| "dispatch s (DataUInt64 v) = write_uint64_value s v"
| "dispatch s (DataString v) = write_string_value s v"
| "dispatch s (DataBool v) = write_bool_value s v"
| "dispatch s RowEnd = end_row s"

fun process_events :: "LocalState \<Rightarrow> event list \<Rightarrow> LocalState" where
  "process_events s [] = s"
| "process_events s (e # es) = process_events (dispatch s e) es"

text \<open>
  The state the constructor sets up before the command line is read, and the fields the
  options \<^verbatim>\<open>-c\<close>, \<^verbatim>\<open>-i\<close>, \<^verbatim>\<open>-e\<close> and \<^verbatim>\<open>-l\<close> then change.
\<close>

definition initial_state :: LocalState where
  "initial_state =
     \<lparr>infilename = [], outfilename = [], outfile = [], tablenum = 0, colsep = '','',
      colnum = 0, included_tables = {}, excluded_tables = {}, suppress_table = False,
      only_names = False\<rparr>"

section \<open>What the specification speaks of\<close>

text \<open>
  The definitions of this section are not code of the program: they are the notions the
  specification uses to say what the program does, written from its words, and the
  theorems below compare the program with them.
\<close>

subsection \<open>Escape sequences\<close>

text \<open>
  ``Scans \<open>raw\<close> left to right; a backslash marks the next character as escaped.'' A
  string read that way is a sequence of plain characters and escaped characters; a
  backslash with nothing after it is \<open>Dangling\<close>.
\<close>

datatype token = Plain char | Escaped char | Dangling

fun scan_escapes :: "string \<Rightarrow> token list" where
  "scan_escapes [] = []"
| "scan_escapes [c] = (if c = backslash then [Dangling] else [Plain c])"
| "scan_escapes (c # d # rest) =
     (if c = backslash then Escaped d # scan_escapes rest else Plain c # scan_escapes (d # rest))"

text \<open>The recognized escapes and the character each stands for.\<close>

definition recognized :: "char \<Rightarrow> bool" where
  "recognized c = (c \<in> set [backslash, apostrophe, dquote, CHR ''t'', CHR ''n'', CHR ''r''])"

definition escape_meaning :: "char \<Rightarrow> char" where
  "escape_meaning c =
     (if c = CHR ''t'' then tab else if c = CHR ''n'' then newline
      else if c = CHR ''r'' then creturn else c)"

fun token_text :: "token \<Rightarrow> string" where
  "token_text (Plain c) = [c]"
| "token_text (Escaped c) = [escape_meaning c]"
| "token_text Dangling = []"

text \<open>
  The string with each two-character escape replaced by the character it stands for and
  every other character copied.
\<close>

definition replaced :: "string \<Rightarrow> string" where
  "replaced s = concat (map token_text (scan_escapes s))"

fun first_unrecognized :: "token list \<Rightarrow> char option" where
  "first_unrecognized [] = None"
| "first_unrecognized (Escaped c # ts) = (if recognized c then first_unrecognized ts else Some c)"
| "first_unrecognized (t # ts) = first_unrecognized ts"

subsection \<open>The table filter\<close>

text \<open>
  ``Returns true iff (\<open>includeSet\<close> is non-empty AND \<open>name\<close> is absent from it) OR
  (\<open>name\<close> is present in \<open>excludeSet\<close>).''
\<close>

definition shouldSuppress :: "string \<Rightarrow> string set \<Rightarrow> string set \<Rightarrow> bool" where
  "shouldSuppress name includeSet excludeSet =
     ((includeSet \<noteq> {} \<and> name \<notin> includeSet) \<or> name \<in> excludeSet)"

subsection \<open>Event streams\<close>

fun is_table_begin :: "event \<Rightarrow> bool" where
  "is_table_begin (TableBeginBasic name) = True"
| "is_table_begin (TableBeginKeyval name) = True"
| "is_table_begin e = False"

fun starts_with_table :: "event list \<Rightarrow> bool" where
  "starts_with_table [] = True"
| "starts_with_table (e # es) = is_table_begin e"

fun table_names :: "event list \<Rightarrow> string list" where
  "table_names [] = []"
| "table_names (TableBeginBasic name # es) = name # table_names es"
| "table_names (TableBeginKeyval name # es) = name # table_names es"
| "table_names (e # es) = table_names es"

text \<open>One quoted table-name line per name, nothing between the lines.\<close>

definition name_lines :: "string list \<Rightarrow> string" where
  "name_lines names = concat (map (\<lambda>n. quote_for_csv n @ [newline]) names)"

text \<open>The value events (column headers and data values) and the text each is written as.\<close>

fun is_value :: "event \<Rightarrow> bool" where
  "is_value (ColumnUInt64 name) = True"
| "is_value (ColumnString name) = True"
| "is_value (ColumnBool name) = True"
| "is_value (DataUInt64 v) = True"
| "is_value (DataString v) = True"
| "is_value (DataBool v) = True"
| "is_value e = False"

fun value_text :: "event \<Rightarrow> string" where
  "value_text (ColumnUInt64 name) = quote_for_csv name"
| "value_text (ColumnString name) = quote_for_csv name"
| "value_text (ColumnBool name) = quote_for_csv name"
| "value_text (DataUInt64 v) = show_uint64 v"
| "value_text (DataString v) = quote_for_csv v"
| "value_text (DataBool v) = (if v = 0 then ''FALSE'' else ''TRUE'')"
| "value_text e = []"

text \<open>The number a string of decimal digits denotes, read left to right.\<close>

definition decimal_value :: "string \<Rightarrow> nat" where
  "decimal_value ds = foldl (\<lambda>acc c. 10 * acc + (of_char c - 48)) 0 ds"

section \<open>The quoter\<close>

text \<open>The loop appends to what was written before it: each character, a double quote twice.\<close>

lemma quote_loop_concat:
  "quote_loop in_str out_str =
     out_str @ concat (map (\<lambda>c. if c = dquote then [dquote, dquote] else [c]) in_str)"
  by (induction in_str arbitrary: out_str) auto

lemma quote_for_csv_shape:
  "quote_for_csv s =
     (if s \<noteq> [] \<and> hd s = CHR ''-'' then [CHR ''=''] else [])
       @ [dquote] @ concat (map (\<lambda>c. if c = dquote then [dquote, dquote] else [c]) s) @ [dquote]"
  by (cases s) (simp_all add: quote_for_csv_def quote_loop_concat)

lemma quote_for_csv_nonempty: "quote_for_csv s \<noteq> []"
  by (simp add: quote_for_csv_shape)

lemma count_doubled:
  "count_list (concat (map (\<lambda>c. if c = dquote then [dquote, dquote] else [c]) s)) dquote
     = 2 * count_list s dquote"
  by (induction s) auto

lemma filter_doubled:
  "filter (\<lambda>c. c \<noteq> dquote) (concat (map (\<lambda>c. if c = dquote then [dquote, dquote] else [c]) s))
     = filter (\<lambda>c. c \<noteq> dquote) s"
  by (induction s) auto

text \<open>
  C3. For every string \<open>s\<close>, \<open>quote_for_csv s\<close> ends with a double quote, and it holds
  twice the double quotes of \<open>s\<close> and two more. It starts with a double quote unless \<open>s\<close>
  starts with a minus sign: then it starts with an equals sign, and the double quote comes
  second.
\<close>

theorem quote_for_csv_ends_and_count:
  "quote_for_csv s \<noteq> []
   \<and> last (quote_for_csv s) = dquote
   \<and> (if s \<noteq> [] \<and> hd s = CHR ''-''
        then take 2 (quote_for_csv s) = [CHR ''='', dquote]
        else hd (quote_for_csv s) = dquote)
   \<and> count_list (quote_for_csv s) dquote = 2 * count_list s dquote + 2"
  by (simp add: quote_for_csv_shape count_doubled)

theorem quote_for_csv_ends_and_count_witness:
  "last (quote_for_csv [CHR ''a'', dquote]) = dquote
   \<and> hd (quote_for_csv [CHR ''a'', dquote]) = dquote
   \<and> count_list (quote_for_csv [CHR ''a'', dquote]) dquote = 4
   \<and> take 2 (quote_for_csv ''-a'') = [CHR ''='', dquote]
   \<and> count_list (quote_for_csv ''-a'') dquote = 2"
  using quote_for_csv_ends_and_count [of "[CHR ''a'', dquote]"]
    quote_for_csv_ends_and_count [of "''-a''"]
  by simp

text \<open>The string \<open>-1\<close> is quoted as \<open>="-1"\<close>, which starts with an equals sign.\<close>

theorem quote_for_csv_start_counterexample:
  "quote_for_csv ''-1'' = [CHR ''='', dquote, CHR ''-'', CHR ''1'', dquote]
   \<and> hd (quote_for_csv ''-1'') \<noteq> dquote"
  by (simp add: quote_for_csv_def)

text \<open>
  C6. For every non-empty string \<open>s\<close> whose first character is a minus sign,
  \<open>quote_for_csv s\<close> begins with the two characters equals sign and double quote; after
  them come the characters of \<open>s\<close> in order, each as it is but for a double quote, which
  is written twice, and then the closing double quote. So what is left of the result
  without its double quotes is the equals sign and \<open>s\<close> without its double quotes.
\<close>

theorem quote_for_csv_leading_minus:
  "s \<noteq> [] \<and> hd s = CHR ''-'' \<longrightarrow>
     take 2 (quote_for_csv s) = [CHR ''='', dquote]
     \<and> quote_for_csv s =
         [CHR ''='', dquote]
           @ concat (map (\<lambda>c. if c = dquote then [dquote, dquote] else [c]) s) @ [dquote]
     \<and> filter (\<lambda>c. c \<noteq> dquote) (quote_for_csv s) = CHR ''='' # filter (\<lambda>c. c \<noteq> dquote) s"
  by (simp add: quote_for_csv_shape filter_doubled)

theorem quote_for_csv_leading_minus_witness:
  "[CHR ''-'', dquote, CHR ''x''] \<noteq> [] \<and> hd [CHR ''-'', dquote, CHR ''x''] = CHR ''-''
   \<and> take 2 (quote_for_csv [CHR ''-'', dquote, CHR ''x'']) = [CHR ''='', dquote]
   \<and> quote_for_csv [CHR ''-'', dquote, CHR ''x'']
        = [CHR ''='', dquote, CHR ''-'', dquote, dquote, CHR ''x'', dquote]"
  using quote_for_csv_leading_minus [of "[CHR ''-'', dquote, CHR ''x'']"] by simp

section \<open>The escape expander\<close>

text \<open>One step of the loop after a backslash.\<close>

lemma expand_loop_escaped:
  "expand_loop in_str (d # rest) out_str True =
     (if recognized d then expand_loop in_str rest (out_str @ [escape_meaning d]) False
      else Inl (InvalidEscapeSequence d in_str))"
  by (auto simp: recognized_def escape_meaning_def)

text \<open>
  The loop, started outside an escape, stops at the first escaped character that is not
  recognized; when there is none it returns what it had, then the text of each token.
\<close>

lemma expand_loop_scan:
  "expand_loop in_str rest out_str False =
     (case first_unrecognized (scan_escapes rest) of
        None \<Rightarrow> Inr (out_str @ concat (map token_text (scan_escapes rest)))
      | Some c \<Rightarrow> Inl (InvalidEscapeSequence c in_str))"
proof (induction rest arbitrary: out_str rule: scan_escapes.induct)
  case 1
  show ?case by simp
next
  case (2 c)
  show ?case by simp
next
  case (3 c d rest)
  show ?case
  proof (cases "c = backslash")
    case True
    have "expand_loop in_str (c # d # rest) out_str False
            = expand_loop in_str (d # rest) out_str True"
      using True by simp
    also have "\<dots> = (if recognized d
                       then expand_loop in_str rest (out_str @ [escape_meaning d]) False
                       else Inl (InvalidEscapeSequence d in_str))"
      by (rule expand_loop_escaped)
    finally show ?thesis
      using True by (simp add: "3.IH"(1) del: expand_loop.simps split: option.splits)
  next
    case False
    have "expand_loop in_str (c # d # rest) out_str False
            = expand_loop in_str (d # rest) (out_str @ [c]) False"
      using False by simp
    then show ?thesis
      using False by (simp add: "3.IH"(2) del: expand_loop.simps split: option.splits)
  qed
qed

lemma expand_escapes_scan:
  "expand_escapes s =
     (case first_unrecognized (scan_escapes s) of
        None \<Rightarrow> Inr (replaced s)
      | Some c \<Rightarrow> Inl (InvalidEscapeSequence c s))"
  by (simp add: expand_escapes_def replaced_def expand_loop_scan split: option.splits)

lemma first_unrecognized_None:
  "first_unrecognized ts = None \<longleftrightarrow> (\<forall>c. Escaped c \<in> set ts \<longrightarrow> recognized c)"
  by (induction ts rule: first_unrecognized.induct) auto

text \<open>
  C1. A separator that ends in a lone backslash is not rejected: the loop ends with
  \<^verbatim>\<open>escape_next\<close> set, nothing looks at it, and the function returns the string without
  the backslash. With \<^verbatim>\<open>-c 'a\'\<close> the separator is \<open>a\<close>.
\<close>

theorem expand_escapes_trailing_backslash:
  "expand_escapes [CHR ''a'', backslash] = Inr ''a''"
  by (simp add: expand_escapes_def)

text \<open>
  C8. The input is read from the left, a backslash taking the character after it as
  escaped. For every input in which every such backslash is followed by one of the six
  recognized characters (so none is left without a character after it),
  \<open>expand_escapes\<close> returns the input with each two-character escape replaced by the
  character it stands for and every other character copied. And for every input, it fails
  with \<open>InvalidEscapeSequence\<close> if and only if some such backslash is followed by a
  character that is not recognized.
\<close>

theorem expand_escapes_recognized_or_fatal:
  "(Dangling \<notin> set (scan_escapes s)
      \<and> (\<forall>c. Escaped c \<in> set (scan_escapes s) \<longrightarrow> recognized c)
     \<longrightarrow> expand_escapes s = Inr (replaced s))
   \<and> ((\<exists>c. expand_escapes s = Inl (InvalidEscapeSequence c s))
        \<longleftrightarrow> (\<exists>c. Escaped c \<in> set (scan_escapes s) \<and> \<not> recognized c))"
proof -
  have a: "(\<forall>c. Escaped c \<in> set (scan_escapes s) \<longrightarrow> recognized c)
             \<longrightarrow> expand_escapes s = Inr (replaced s)"
    using first_unrecognized_None [of "scan_escapes s"]
    by (auto simp: expand_escapes_scan split: option.splits)
  have b: "(\<exists>c. expand_escapes s = Inl (InvalidEscapeSequence c s))
          \<longleftrightarrow> (\<exists>c. Escaped c \<in> set (scan_escapes s) \<and> \<not> recognized c)"
    using first_unrecognized_None [of "scan_escapes s"]
    by (auto simp: expand_escapes_scan split: option.splits)
  from a b show ?thesis by blast
qed

theorem expand_escapes_recognized_or_fatal_witness:
  "scan_escapes [CHR ''a'', backslash, CHR ''t'', CHR ''b'']
       = [Plain (CHR ''a''), Escaped (CHR ''t''), Plain (CHR ''b'')]
   \<and> recognized (CHR ''t'')
   \<and> expand_escapes [CHR ''a'', backslash, CHR ''t'', CHR ''b''] = Inr [CHR ''a'', tab, CHR ''b'']
   \<and> expand_escapes [CHR ''a'', backslash, backslash, CHR ''b'', backslash, backslash]
       = Inr [CHR ''a'', backslash, CHR ''b'', backslash]
   \<and> (\<exists>c. expand_escapes [CHR ''x'', backslash, CHR ''q'', CHR ''y'']
            = Inl (InvalidEscapeSequence c [CHR ''x'', backslash, CHR ''q'', CHR ''y'']))
   \<and> \<not> (\<exists>c. expand_escapes [backslash, backslash, CHR ''q'']
            = Inl (InvalidEscapeSequence c [backslash, backslash, CHR ''q'']))"
proof -
  let ?s1 = "[CHR ''a'', backslash, CHR ''t'', CHR ''b'']"
  let ?s2 = "[CHR ''a'', backslash, backslash, CHR ''b'', backslash, backslash]"
  let ?s3 = "[CHR ''x'', backslash, CHR ''q'', CHR ''y'']"
  let ?s4 = "[backslash, backslash, CHR ''q'']"
  have h1: "Dangling \<notin> set (scan_escapes ?s1)
            \<and> (\<forall>c. Escaped c \<in> set (scan_escapes ?s1) \<longrightarrow> recognized c)"
    by (simp add: recognized_def)
  have h2: "Dangling \<notin> set (scan_escapes ?s2)
            \<and> (\<forall>c. Escaped c \<in> set (scan_escapes ?s2) \<longrightarrow> recognized c)"
    by (simp add: recognized_def)
  have h3: "\<exists>c. Escaped c \<in> set (scan_escapes ?s3) \<and> \<not> recognized c"
    by (simp add: recognized_def)
  have h4: "\<not> (\<exists>c. Escaped c \<in> set (scan_escapes ?s4) \<and> \<not> recognized c)"
    by (simp add: recognized_def)
  from h1 expand_escapes_recognized_or_fatal [of ?s1]
  have "expand_escapes ?s1 = Inr (replaced ?s1)" by blast
  then have r1: "expand_escapes ?s1 = Inr [CHR ''a'', tab, CHR ''b'']"
    by (simp add: replaced_def escape_meaning_def)
  from h2 expand_escapes_recognized_or_fatal [of ?s2]
  have "expand_escapes ?s2 = Inr (replaced ?s2)" by blast
  then have r2: "expand_escapes ?s2 = Inr [CHR ''a'', backslash, CHR ''b'', backslash]"
    by (simp add: replaced_def escape_meaning_def)
  from h3 expand_escapes_recognized_or_fatal [of ?s3]
  have r3: "\<exists>c. expand_escapes ?s3 = Inl (InvalidEscapeSequence c ?s3)" by blast
  from h4 expand_escapes_recognized_or_fatal [of ?s4]
  have r4: "\<not> (\<exists>c. expand_escapes ?s4 = Inl (InvalidEscapeSequence c ?s4))" by blast
  have h0: "scan_escapes ?s1 = [Plain (CHR ''a''), Escaped (CHR ''t''), Plain (CHR ''b'')]
            \<and> recognized (CHR ''t'')"
    by (simp add: recognized_def)
  from h0 r1 r2 r3 r4 show ?thesis by blast
qed

section \<open>Decimal output\<close>

lemma digit_char_cases:
  "d < 10 \<Longrightarrow> digit_char d \<in> set ''0123456789'' \<and> (of_char (digit_char d) :: nat) - 48 = d"
proof -
  assume "d < 10"
  then have "d \<in> {0, 1, 2, 3, 4, 5, 6, 7, 8, 9}" by auto
  then show ?thesis by (auto simp: digit_char_def)
qed

lemma decimal_digits: "set (decimal n) \<subseteq> set ''0123456789''"
proof (induction n rule: decimal.induct)
  case (1 n)
  show ?case
  proof (cases "n < 10")
    case True
    then show ?thesis using digit_char_cases [of n] by (subst decimal.simps) simp
  next
    case False
    have "n mod 10 < 10" by simp
    then show ?thesis using False 1 digit_char_cases [of "n mod 10"]
      by (subst decimal.simps) simp
  qed
qed

lemma decimal_value_snoc:
  "decimal_value (ds @ [c]) = 10 * decimal_value ds + (of_char c - 48)"
  by (simp add: decimal_value_def)

lemma decimal_value_decimal: "decimal_value (decimal n) = n"
proof (induction n rule: decimal.induct)
  case (1 n)
  show ?case
  proof (cases "n < 10")
    case True
    then show ?thesis using digit_char_cases [of n]
      by (subst decimal.simps) (simp add: decimal_value_def)
  next
    case False
    have "n mod 10 < 10" by simp
    then show ?thesis using False 1 digit_char_cases [of "n mod 10"]
      by (subst decimal.simps) (simp add: decimal_value_snoc)
  qed
qed

lemma show_uint64_examples:
  "show_uint64 0 = ''0''"
  "show_uint64 1234567890 = ''1234567890''"
  "show_uint64 18446744073709551615 = ''18446744073709551615''"
  by (simp_all add: show_uint64_def decimal.simps digit_char_def)

section \<open>The renderer\<close>

subsection \<open>Single callbacks\<close>

text \<open>
  C4. At a table begin the table is suppressed (the callback returns at once, with the
  flag set and nothing written) if and only if the include set is non-empty and lacks the
  name, or the exclude set has the name. Outside only-names mode the flag
  \<open>suppress_table\<close> is then exactly that verdict. When both sets are empty no table is
  suppressed: the name line of every table is written.
\<close>

theorem begin_any_table_suppresses_iff:
  "((begin_any_table s name = s\<lparr>suppress_table := True\<rparr>)
       \<longleftrightarrow> shouldSuppress name (included_tables s) (excluded_tables s))
   \<and> (\<not> only_names s \<longrightarrow>
         (suppress_table (begin_any_table s name)
            \<longleftrightarrow> shouldSuppress name (included_tables s) (excluded_tables s)))
   \<and> (included_tables s = {} \<and> excluded_tables s = {} \<longrightarrow>
         \<not> shouldSuppress name (included_tables s) (excluded_tables s)
         \<and> outfile (begin_any_table s name) =
             outfile s @ (if \<not> only_names s \<and> tablenum s > 0 then [newline] else [])
               @ quote_for_csv name @ [newline])"
proof -
  let ?f = "shouldSuppress name (included_tables s) (excluded_tables s)"
  have a: "?f \<Longrightarrow> begin_any_table s name = s\<lparr>suppress_table := True\<rparr>"
    by (simp add: begin_any_table_def shouldSuppress_def Let_def)
  have b: "\<not> ?f \<Longrightarrow>
             outfile (begin_any_table s name) =
               outfile s @ (if \<not> only_names s \<and> tablenum s > 0 then [newline] else [])
                 @ quote_for_csv name @ [newline]
             \<and> suppress_table (begin_any_table s name) = only_names s"
    by (simp add: begin_any_table_def shouldSuppress_def Let_def)
  have c: "\<not> ?f \<Longrightarrow> begin_any_table s name \<noteq> s\<lparr>suppress_table := True\<rparr>"
  proof
    assume n: "\<not> ?f" and e: "begin_any_table s name = s\<lparr>suppress_table := True\<rparr>"
    from e have "outfile (begin_any_table s name) = outfile s" by simp
    with b [OF n] show False by simp
  qed
  have d: "included_tables s = {} \<and> excluded_tables s = {} \<Longrightarrow> \<not> ?f"
    by (simp add: shouldSuppress_def)
  have a': "?f \<Longrightarrow> suppress_table (begin_any_table s name)"
    using a by simp
  show ?thesis
  proof (cases ?f)
    case True
    with a a' d show ?thesis by blast
  next
    case False
    with b c show ?thesis by (simp add: shouldSuppress_def)
  qed
qed

theorem begin_any_table_suppresses_iff_witness:
  "\<not> only_names initial_state
   \<and> included_tables initial_state = {} \<and> excluded_tables initial_state = {}
   \<and> \<not> suppress_table (begin_any_table initial_state ''T1'')
   \<and> outfile (begin_any_table initial_state ''T1'')
       = [dquote, CHR ''T'', CHR ''1'', dquote, newline]
   \<and> shouldSuppress ''T1'' {''T2''} {}
   \<and> begin_any_table (initial_state\<lparr>included_tables := {''T2''}\<rparr>) ''T1''
       = initial_state\<lparr>included_tables := {''T2''}, suppress_table := True\<rparr>"
  using begin_any_table_suppresses_iff [of initial_state "''T1''"]
    begin_any_table_suppresses_iff [of "initial_state\<lparr>included_tables := {''T2''}\<rparr>" "''T1''"]
  by (simp add: initial_state_def shouldSuppress_def quote_for_csv_def)

text \<open>
  C5. In a table that is not suppressed, each value callback (a column header, a
  \<^verbatim>\<open>uint64_t\<close>, a string, a boolean) writes the column separator exactly when
  \<open>colnum\<close> is above zero, then the value (the number in decimal digits, \<open>TRUE\<close> or
  \<open>FALSE\<close>, the quoted string or header name), and adds one to \<open>colnum\<close> (in the
  arithmetic of \<^verbatim>\<open>size_t\<close>); nothing else of the state changes.
\<close>

theorem value_emission:
  "\<not> suppress_table s \<longrightarrow>
     any_column_header s name =
       s\<lparr>outfile := outfile s @ (if colnum s > 0 then colsep s else []) @ quote_for_csv name,
         colnum := colnum s + 1\<rparr>
   \<and> write_uint64_value s n =
       s\<lparr>outfile := outfile s @ (if colnum s > 0 then colsep s else []) @ show_uint64 n,
         colnum := colnum s + 1\<rparr>
   \<and> set (show_uint64 n) \<subseteq> set ''0123456789'' \<and> decimal_value (show_uint64 n) = unat n
   \<and> write_string_value s str =
       s\<lparr>outfile := outfile s @ (if colnum s > 0 then colsep s else []) @ quote_for_csv str,
         colnum := colnum s + 1\<rparr>
   \<and> write_bool_value s b =
       s\<lparr>outfile := outfile s @ (if colnum s > 0 then colsep s else [])
                                 @ (if b = 0 then ''FALSE'' else ''TRUE''),
         colnum := colnum s + 1\<rparr>"
  using decimal_digits [of "unat n"]
  by (simp add: any_column_header_def write_uint64_value_def write_string_value_def
        write_bool_value_def show_uint64_def decimal_value_decimal)

theorem value_emission_witness:
  "\<not> suppress_table (initial_state\<lparr>colnum := 1\<rparr>)
   \<and> write_uint64_value (initial_state\<lparr>colnum := 1\<rparr>) 507
       = initial_state\<lparr>outfile := '',507'', colnum := 2\<rparr>
   \<and> write_bool_value (initial_state\<lparr>colnum := 1\<rparr>) 1
       = initial_state\<lparr>outfile := '',TRUE'', colnum := 2\<rparr>
   \<and> write_string_value initial_state ''x''
       = initial_state\<lparr>outfile := [dquote, CHR ''x'', dquote], colnum := 1\<rparr>
   \<and> any_column_header initial_state ''A''
       = initial_state\<lparr>outfile := [dquote, CHR ''A'', dquote], colnum := 1\<rparr>"
  using value_emission [of "initial_state\<lparr>colnum := 1\<rparr>" "''A''" 507 "''x''" 1]
    value_emission [of initial_state "''A''" 507 "''x''" 1]
  by (simp add: initial_state_def show_uint64_def decimal.simps digit_char_def quote_for_csv_def)

text \<open>
  C9. In a table that is not suppressed, a boolean value is written as \<open>TRUE\<close> for every
  byte other than zero, and as \<open>FALSE\<close> exactly for the byte zero.
\<close>

theorem write_bool_value_nonzero:
  "\<not> suppress_table s \<longrightarrow>
     (v \<noteq> 0 \<longrightarrow> outfile (write_bool_value s v)
                   = outfile s @ (if colnum s > 0 then colsep s else []) @ ''TRUE'')
     \<and> (v = 0 \<longrightarrow> outfile (write_bool_value s v)
                   = outfile s @ (if colnum s > 0 then colsep s else []) @ ''FALSE'')"
  by (simp add: write_bool_value_def)

theorem write_bool_value_nonzero_witness:
  "\<not> suppress_table initial_state \<and> (2 :: 8 word) \<noteq> 0 \<and> (255 :: 8 word) \<noteq> 0
   \<and> outfile (write_bool_value initial_state 2) = ''TRUE''
   \<and> outfile (write_bool_value initial_state 255) = ''TRUE''
   \<and> outfile (write_bool_value initial_state 0) = ''FALSE''"
  using write_bool_value_nonzero [of initial_state 2]
    write_bool_value_nonzero [of initial_state 255]
    write_bool_value_nonzero [of initial_state 0]
  by (simp add: initial_state_def)

text \<open>
  C10. While the current table is suppressed, the row-begin, column-header, data-value
  and row-end callbacks return the state they were given: nothing is written to the
  output and no field changes.
\<close>

theorem suppressed_handlers_do_nothing:
  "suppress_table s \<longrightarrow>
     begin_row s = s \<and> any_column_header s name = s \<and> write_uint64_value s n = s
     \<and> write_string_value s str = s \<and> write_bool_value s b = s \<and> end_row s = s"
  by (simp add: begin_row_def any_column_header_def end_row_def write_uint64_value_def
        write_string_value_def write_bool_value_def)

theorem suppressed_handlers_do_nothing_witness:
  "suppress_table (initial_state\<lparr>suppress_table := True, colnum := 3\<rparr>)
   \<and> begin_row (initial_state\<lparr>suppress_table := True, colnum := 3\<rparr>)
       = initial_state\<lparr>suppress_table := True, colnum := 3\<rparr>
   \<and> write_uint64_value (initial_state\<lparr>suppress_table := True, colnum := 3\<rparr>) 5
       = initial_state\<lparr>suppress_table := True, colnum := 3\<rparr>
   \<and> end_row (initial_state\<lparr>suppress_table := True, colnum := 3\<rparr>)
       = initial_state\<lparr>suppress_table := True, colnum := 3\<rparr>"
  using suppressed_handlers_do_nothing
          [of "initial_state\<lparr>suppress_table := True, colnum := 3\<rparr>" "''A''" 5 "''x''" 1]
  by simp

subsection \<open>Event streams\<close>

lemma process_events_append:
  "process_events s (xs @ ys) = process_events (process_events s xs) ys"
  by (induction xs arbitrary: s) simp_all

lemma dispatch_value:
  "\<not> suppress_table s \<Longrightarrow> is_value e \<Longrightarrow>
     dispatch s e =
       s\<lparr>outfile := outfile s @ (if colnum s > 0 then colsep s else []) @ value_text e,
         colnum := colnum s + 1\<rparr>"
  by (cases e)
     (simp_all add: any_column_header_def write_uint64_value_def write_string_value_def
        write_bool_value_def)

lemma dispatch_suppressed:
  "suppress_table s \<Longrightarrow> \<not> is_table_begin e \<Longrightarrow> dispatch s e = s"
  by (cases e)
     (simp_all add: begin_row_def any_column_header_def end_row_def write_uint64_value_def
        write_string_value_def write_bool_value_def)

text \<open>The example of the specification, from the state the constructor sets up.\<close>

lemma end_to_end_example:
  "outfile (process_events initial_state
      [TableBeginBasic ''T1'', ColumnBegin, ColumnString ''A'', ColumnString ''B'', ColumnEnd,
       RowBegin, DataUInt64 5, DataString ''x'', RowEnd])
   = [dquote, CHR ''T'', CHR ''1'', dquote, newline,
      dquote, CHR ''A'', dquote, CHR '','', dquote, CHR ''B'', dquote, newline,
      CHR ''5'', CHR '','', dquote, CHR ''x'', dquote, newline]"
  by (simp add: initial_state_def begin_any_table_def begin_row_def any_column_header_def
        end_row_def write_uint64_value_def write_string_value_def quote_for_csv_def
        show_uint64_def decimal.simps digit_char_def Let_def)

text \<open>
  C7. In every event stream, a row-begin event (of a header row or of a data row) in a
  table that is not suppressed sets \<open>colnum\<close> to zero and changes nothing else, whatever
  the events before it were. So the first value of the row is handled with \<open>colnum\<close>
  zero: it is written with no separator before it, and \<open>colnum\<close> is one after it.
\<close>

theorem row_begin_resets_colnum:
  "(b = ColumnBegin \<or> b = RowBegin) \<and> \<not> suppress_table (process_events s pre) \<longrightarrow>
     process_events s (pre @ [b]) = (process_events s pre)\<lparr>colnum := 0\<rparr>
     \<and> colnum (process_events s (pre @ [b])) = 0
     \<and> (is_value v \<longrightarrow>
          outfile (process_events s (pre @ [b, v]))
            = outfile (process_events s pre) @ value_text v
          \<and> colnum (process_events s (pre @ [b, v])) = 1)"
proof (intro impI)
  assume h: "(b = ColumnBegin \<or> b = RowBegin) \<and> \<not> suppress_table (process_events s pre)"
  let ?s1 = "process_events s pre"
  have b: "dispatch ?s1 b = ?s1\<lparr>colnum := 0\<rparr>"
    using h by (auto simp: begin_row_def)
  have 1: "process_events s (pre @ [b]) = ?s1\<lparr>colnum := 0\<rparr>"
    by (simp add: process_events_append b)
  have 2: "is_value v \<longrightarrow>
             outfile (process_events s (pre @ [b, v])) = outfile ?s1 @ value_text v
             \<and> colnum (process_events s (pre @ [b, v])) = 1"
    using h by (simp add: process_events_append b dispatch_value)
  from 1 2 show "process_events s (pre @ [b]) = ?s1\<lparr>colnum := 0\<rparr>
     \<and> colnum (process_events s (pre @ [b])) = 0
     \<and> (is_value v \<longrightarrow>
          outfile (process_events s (pre @ [b, v])) = outfile ?s1 @ value_text v
          \<and> colnum (process_events s (pre @ [b, v])) = 1)"
    by simp
qed

theorem row_begin_resets_colnum_witness:
  "\<not> suppress_table (process_events initial_state
        [TableBeginBasic ''T'', ColumnBegin, ColumnString ''A'', ColumnString ''B'', ColumnEnd])
   \<and> colnum (process_events initial_state
        [TableBeginBasic ''T'', ColumnBegin, ColumnString ''A'', ColumnString ''B'', ColumnEnd]) = 2
   \<and> is_value (DataBool 1)
   \<and> colnum (process_events initial_state
        ([TableBeginBasic ''T'', ColumnBegin, ColumnString ''A'', ColumnString ''B'', ColumnEnd]
          @ [RowBegin])) = 0
   \<and> outfile (process_events initial_state
        ([TableBeginBasic ''T'', ColumnBegin, ColumnString ''A'', ColumnString ''B'', ColumnEnd]
          @ [RowBegin, DataBool 1]))
      = outfile (process_events initial_state
        [TableBeginBasic ''T'', ColumnBegin, ColumnString ''A'', ColumnString ''B'', ColumnEnd])
        @ ''TRUE''"
proof -
  let ?pre = "[TableBeginBasic ''T'', ColumnBegin, ColumnString ''A'', ColumnString ''B'', ColumnEnd]"
  have h: "\<not> suppress_table (process_events initial_state ?pre)"
    and c: "colnum (process_events initial_state ?pre) = 2"
    by (simp_all add: initial_state_def begin_any_table_def begin_row_def any_column_header_def
          end_row_def Let_def)
  have v: "is_value (DataBool 1)" by simp
  have b: "RowBegin = ColumnBegin \<or> RowBegin = RowBegin" by simp
  have vt: "value_text (DataBool 1) = ''TRUE''" by simp
  from b h v row_begin_resets_colnum [of RowBegin initial_state ?pre "DataBool 1"]
  have "colnum (process_events initial_state (?pre @ [RowBegin])) = 0
        \<and> outfile (process_events initial_state (?pre @ [RowBegin, DataBool 1]))
            = outfile (process_events initial_state ?pre) @ value_text (DataBool 1)"
    by blast
  then have "colnum (process_events initial_state (?pre @ [RowBegin])) = 0
        \<and> outfile (process_events initial_state (?pre @ [RowBegin, DataBool 1]))
            = outfile (process_events initial_state ?pre) @ ''TRUE''"
    by (simp only: vt)
  with h c v show ?thesis by blast
qed

subsection \<open>Only-names mode\<close>

lemma begin_any_table_only_names:
  "only_names s \<Longrightarrow>
     begin_any_table s name =
       s\<lparr>suppress_table := True,
         outfile := outfile s @
           (if shouldSuppress name (included_tables s) (excluded_tables s) then []
            else quote_for_csv name @ [newline])\<rparr>"
  by (simp add: begin_any_table_def shouldSuppress_def Let_def)

lemma process_events_only_names_suppressed:
  "only_names s \<Longrightarrow> suppress_table s \<Longrightarrow>
     process_events s evs =
       s\<lparr>outfile := outfile s @
           name_lines (filter (\<lambda>n. \<not> shouldSuppress n (included_tables s) (excluded_tables s))
                         (table_names evs))\<rparr>"
proof (induction evs arbitrary: s)
  case Nil
  then show ?case by (simp add: name_lines_def)
next
  case (Cons e evs)
  show ?case
  proof (cases "is_table_begin e")
    case True
    then obtain name where e: "e = TableBeginBasic name \<or> e = TableBeginKeyval name"
      by (cases e) auto
    let ?s1 = "begin_any_table s name"
    have d: "dispatch s e = ?s1" using e by auto
    have s1: "?s1 = s\<lparr>suppress_table := True,
         outfile := outfile s @
           (if shouldSuppress name (included_tables s) (excluded_tables s) then []
            else quote_for_csv name @ [newline])\<rparr>"
      using Cons.prems(1) by (rule begin_any_table_only_names)
    have on: "only_names ?s1" "suppress_table ?s1" using Cons.prems by (simp_all add: s1)
    have tn: "table_names (e # evs) = name # table_names evs" using e by auto
    show ?thesis
      using Cons.IH [OF on] Cons.prems
      by (simp add: d tn) (simp add: s1 name_lines_def)
  next
    case False
    then have d: "dispatch s e = s" using Cons.prems(2) by (simp add: dispatch_suppressed)
    have tn: "table_names (e # evs) = table_names evs" using False by (cases e) auto
    show ?thesis using Cons.IH [OF Cons.prems] by (simp add: d tn)
  qed
qed

text \<open>
  C2. In only-names mode, for every event stream that starts with a table begin, what is
  written is the quoted name lines of the tables the filter does not suppress, in the
  order of the stream, each name line ended by a newline and nothing else: no blank line
  before any of them, no header row, no data row.
\<close>

theorem only_names_output:
  "only_names s \<and> starts_with_table evs \<longrightarrow>
     outfile (process_events s evs) =
       outfile s @
         name_lines (filter (\<lambda>n. \<not> shouldSuppress n (included_tables s) (excluded_tables s))
                       (table_names evs))"
proof (intro impI, cases evs)
  case Nil
  then show "outfile (process_events s evs) =
       outfile s @
         name_lines (filter (\<lambda>n. \<not> shouldSuppress n (included_tables s) (excluded_tables s))
                       (table_names evs))"
    by (simp add: name_lines_def)
next
  case (Cons e es)
  assume h: "only_names s \<and> starts_with_table evs"
  with Cons obtain name where e: "e = TableBeginBasic name \<or> e = TableBeginKeyval name"
    by (cases e) auto
  let ?s1 = "begin_any_table s name"
  have d: "dispatch s e = ?s1" using e by auto
  have s1: "?s1 = s\<lparr>suppress_table := True,
       outfile := outfile s @
         (if shouldSuppress name (included_tables s) (excluded_tables s) then []
          else quote_for_csv name @ [newline])\<rparr>"
    using h by (simp add: begin_any_table_only_names)
  have on: "only_names ?s1" "suppress_table ?s1" using h by (simp_all add: s1)
  have tn: "table_names (e # es) = name # table_names es" using e by auto
  show "outfile (process_events s evs) =
       outfile s @
         name_lines (filter (\<lambda>n. \<not> shouldSuppress n (included_tables s) (excluded_tables s))
                       (table_names evs))"
    unfolding Cons tn
    by (simp add: d process_events_only_names_suppressed [OF on]) (simp add: s1 name_lines_def)
qed

theorem only_names_output_witness:
  "only_names (initial_state\<lparr>only_names := True, excluded_tables := {''B''}\<rparr>)
   \<and> starts_with_table
        [TableBeginBasic ''A'', ColumnBegin, ColumnUInt64 ''n'', ColumnEnd, RowBegin,
         DataUInt64 5, RowEnd, TableBeginKeyval ''B'', TableBeginBasic ''C'']
   \<and> outfile (process_events (initial_state\<lparr>only_names := True, excluded_tables := {''B''}\<rparr>)
        [TableBeginBasic ''A'', ColumnBegin, ColumnUInt64 ''n'', ColumnEnd, RowBegin,
         DataUInt64 5, RowEnd, TableBeginKeyval ''B'', TableBeginBasic ''C''])
      = [dquote, CHR ''A'', dquote, newline, dquote, CHR ''C'', dquote, newline]"
  using only_names_output
          [of "initial_state\<lparr>only_names := True, excluded_tables := {''B''}\<rparr>"
              "[TableBeginBasic ''A'', ColumnBegin, ColumnUInt64 ''n'', ColumnEnd, RowBegin,
                DataUInt64 5, RowEnd, TableBeginKeyval ''B'', TableBeginBasic ''C'']"]
  by (simp add: initial_state_def name_lines_def shouldSuppress_def quote_for_csv_def)

text \<open>
  Two tables in only-names mode: the second name line follows the first at once, with no
  blank line between them.
\<close>

theorem only_names_no_blank_line_counterexample:
  "outfile (process_events (initial_state\<lparr>only_names := True\<rparr>)
      [TableBeginBasic ''A'', TableBeginBasic ''B''])
     = [dquote, CHR ''A'', dquote, newline, dquote, CHR ''B'', dquote, newline]
   \<and> outfile (process_events (initial_state\<lparr>only_names := True\<rparr>)
      [TableBeginBasic ''A'', TableBeginBasic ''B''])
     \<noteq> [dquote, CHR ''A'', dquote, newline, newline, dquote, CHR ''B'', dquote, newline]"
  by (simp add: initial_state_def begin_any_table_def quote_for_csv_def Let_def)

end
